theory Spec2Isabelle
  imports Main "HOL-Library.Word"
begin

section \<open>Interfacial segments of the particle packing generator\<close>

text \<open>
  A shallow embedding of \<^verbatim>\<open>src/Interface.cpp\<close>: the class \<^verbatim>\<open>Packing::Interface\<close> with its
  constructor and the methods \<^verbatim>\<open>addPoint\<close>, \<^verbatim>\<open>mergeBbox\<close>, \<^verbatim>\<open>withinBbox\<close>, \<^verbatim>\<open>contains\<close> and
  \<^verbatim>\<open>mergeSegments\<close>.
\<close>

subsection \<open>Data\<close>

type_synonym uint32_t = "32 word"

text \<open>
  Modelled from the spec: the type \<^verbatim>\<open>Point3D\<close> is declared in a header that is not part of
  the source at hand. It is a lattice point with three signed integer coordinates, built
  by a constructor taking \<^verbatim>\<open>x\<close>, \<^verbatim>\<open>y\<close>, \<^verbatim>\<open>z\<close> and compared by value. The coordinates are
  mathematical integers here: the model agrees with the C++ \<^verbatim>\<open>int\<close> arithmetic of
  \<^verbatim>\<open>addPoint\<close> on every coordinate \<open>c\<close> for which \<open>c - 1\<close> and \<open>c + 1\<close> are
  representable (signed overflow is undefined in C++).
\<close>

datatype Point3D = Point3D (px: int) (py: int) (pz: int)

text \<open>
  \<^verbatim>\<open>std::array<uint32_t, 6>\<close>: a record of the six elements, field \<open>b\<^sub>i\<close> standing for the
  element at index \<open>i\<close>. Indices 0 to 2 are the minimum corner, 3 to 5 the maximum corner.
\<close>

record bbox_array =
  b0 :: uint32_t
  b1 :: uint32_t
  b2 :: uint32_t
  b3 :: uint32_t
  b4 :: uint32_t
  b5 :: uint32_t

text \<open>
  The members of \<^verbatim>\<open>Interface\<close> that the methods use: \<^verbatim>\<open>id\<close> (written \<open>id'\<close>, as \<open>id\<close> is the
  identity function of HOL), the point set \<^verbatim>\<open>segment\<close> and the array \<^verbatim>\<open>bbox\<close>.

  Modelled from the spec: the class declaration and the accessor \<^verbatim>\<open>getId\<close> are in the header,
  which is not part of the source at hand. \<^verbatim>\<open>id\<close> is an integer, \<^verbatim>\<open>segment\<close> a set of points
  without duplicates, and \<^verbatim>\<open>getId()\<close> returns \<^verbatim>\<open>id\<close>, so a call of it is a read of the field.
\<close>

record Interface =
  id' :: int
  segment :: "Point3D set"
  bbox :: bbox_array

text \<open>
  \<^verbatim>\<open>mergeSegments\<close> works on shared pointers: the receiver, the entries of the vector and
  the values of the registry may all denote the same object. Objects therefore live in a
  store, a \<^verbatim>\<open>std::shared_ptr<Interface>\<close> is an address, and the registry
  (\<^verbatim>\<open>std::unordered_map<int, std::shared_ptr<Interface>>\<close>) is a map from ids to addresses.
  Every address denotes an object: a null pointer in the vector, whose dereference is
  undefined in C++, is not modelled.
\<close>

type_synonym addr = nat
type_synonym store = "addr \<Rightarrow> Interface"
type_synonym registry = "int \<rightharpoonup> addr"

subsection \<open>Constructor\<close>

definition UINT32_MAX :: uint32_t where
  "UINT32_MAX = 0xFFFFFFFF"

definition Interface_new :: "int \<Rightarrow> Interface" where
  "Interface_new i =
     \<lparr>id' = i, segment = {},
      bbox = \<lparr>b0 = UINT32_MAX, b1 = UINT32_MAX, b2 = UINT32_MAX, b3 = 0, b4 = 0, b5 = 0\<rparr>\<rparr>"

subsection \<open>mergeBbox\<close>

text \<open>
  \<^verbatim>\<open>mergeBbox(otherBbox)\<close> reads \<^verbatim>\<open>otherBbox\<close> and the member \<^verbatim>\<open>bbox\<close> and writes \<^verbatim>\<open>bbox\<close> only:
  the function below maps the argument and the old member to the new member. The two
  loops over the indices 0..2 and 3..5 are written out element by element.
\<close>

definition mergeBbox :: "bbox_array \<Rightarrow> bbox_array \<Rightarrow> bbox_array" where
  "mergeBbox otherBbox bb =
     \<lparr>b0 = min (b0 otherBbox) (b0 bb),
      b1 = min (b1 otherBbox) (b1 bb),
      b2 = min (b2 otherBbox) (b2 bb),
      b3 = max (b3 otherBbox) (b3 bb),
      b4 = max (b4 otherBbox) (b4 bb),
      b5 = max (b5 otherBbox) (b5 bb)\<rparr>"

subsection \<open>addPoint\<close>

definition dx :: "int list" where
  "dx = [0, -1, 1, 0, 0, 0, 0, -1, -1, 1, 1, -1, -1, 1, 1, 0, 0, 0, 0]"

definition dy :: "int list" where
  "dy = [0, 0, 0, -1, 1, 0, 0, -1, 1, -1, 1, 0, 0, 0, 0, -1, -1, 1, 1]"

definition dz :: "int list" where
  "dz = [0, 0, 0, 0, 0, -1, 1, 0, 0, 0, 0, -1, 1, -1, 1, -1, 1, -1, 1]"

text \<open>\<^verbatim>\<open>static_cast<uint32_t>\<close> of a signed integer: the value modulo \<open>2\<^sup>3\<^sup>2\<close>.\<close>

definition static_cast_uint32 :: "int \<Rightarrow> uint32_t" where
  "static_cast_uint32 v = word_of_int v"

text \<open>One pass of the loop body of \<^verbatim>\<open>addPoint\<close>, at index \<open>i\<close>.\<close>

definition insertNeighbor :: "Point3D \<Rightarrow> nat \<Rightarrow> Point3D set \<Rightarrow> Point3D set" where
  "insertNeighbor point i seg =
     insert (Point3D (px point + dx ! i) (py point + dy ! i) (pz point + dz ! i)) seg"

definition addPoint :: "Point3D \<Rightarrow> Interface \<Rightarrow> Interface" where
  "addPoint point s =
     (let seg = fold (insertNeighbor point) [0..<19] (segment s);
          pointBbox =
            \<lparr>b0 = static_cast_uint32 (px point - 1),
             b1 = static_cast_uint32 (py point - 1),
             b2 = static_cast_uint32 (pz point - 1),
             b3 = static_cast_uint32 (px point + 1),
             b4 = static_cast_uint32 (py point + 1),
             b5 = static_cast_uint32 (pz point + 1)\<rparr>
      in s\<lparr>segment := seg, bbox := mergeBbox pointBbox (bbox s)\<rparr>)"

subsection \<open>withinBbox and contains\<close>

definition withinBbox :: "Point3D \<Rightarrow> Interface \<Rightarrow> bool" where
  "withinBbox point s \<longleftrightarrow>
     static_cast_uint32 (px point) > b0 (bbox s) \<and>
     static_cast_uint32 (py point) > b1 (bbox s) \<and>
     static_cast_uint32 (pz point) > b2 (bbox s) \<and>
     static_cast_uint32 (px point) < b3 (bbox s) \<and>
     static_cast_uint32 (py point) < b4 (bbox s) \<and>
     static_cast_uint32 (pz point) < b5 (bbox s)"

definition contains :: "Point3D \<Rightarrow> Interface \<Rightarrow> bool" where
  "contains point s \<longleftrightarrow> point \<in> segment s"

subsection \<open>mergeSegments\<close>

text \<open>
  The body of the loop of \<^verbatim>\<open>mergeSegments\<close> for one entry \<open>it\<close> of the vector, the receiver
  being the object at \<open>this\<close>. The inner loop inserts every element of the entry's set into
  the receiver's set, which is their union whatever the order of the iteration; it runs
  only when the ids differ, so the set it reads is never the one it writes.
\<close>

definition mergeOne :: "addr \<Rightarrow> addr \<Rightarrow> store \<times> registry \<Rightarrow> store \<times> registry" where
  "mergeOne this it = (\<lambda>(h, reg).
     if id' (h it) = id' (h this) then (h, reg)
     else
       (h(this := (h this)\<lparr>segment := segment (h this) \<union> segment (h it),
                            bbox := mergeBbox (bbox (h it)) (bbox (h this))\<rparr>),
        reg(id' (h it) := None)))"

fun mergeLoop :: "addr \<Rightarrow> addr list \<Rightarrow> store \<times> registry \<Rightarrow> store \<times> registry" where
  "mergeLoop this [] st = st"
| "mergeLoop this (it # its) st = mergeLoop this its (mergeOne this it st)"

text \<open>
  \<^verbatim>\<open>this->mergeSegments(mergingSegments, interfacialSegments)\<close> in the store \<open>h\<close>: the returned
  boolean, the store and the registry after the call.
\<close>

definition mergeSegments ::
  "addr \<Rightarrow> addr list \<Rightarrow> registry \<Rightarrow> store \<Rightarrow> bool \<times> store \<times> registry" where
  "mergeSegments this mergingSegments interfacialSegments h =
     (if mergingSegments = [] then (False, h, interfacialSegments)
      else (True, mergeLoop this mergingSegments (h, interfacialSegments)))"

subsection \<open>Auxiliary notions for the statements\<close>

text \<open>
  The list of the 19 offsets of the dilation as the specification prints it, the 8 corner
  offsets it excludes, and the translation of a point by an offset. They are used to state
  what \<open>addPoint\<close> inserts; \<open>addPoint\<close> itself is defined from the three arrays above.
\<close>

definition spec_offsets :: "(int \<times> int \<times> int) list" where
  "spec_offsets =
     [(0, 0, 0),
      (-1, 0, 0), (1, 0, 0), (0, -1, 0), (0, 1, 0), (0, 0, -1), (0, 0, 1),
      (-1, -1, 0), (-1, 1, 0), (1, -1, 0), (1, 1, 0),
      (-1, 0, -1), (-1, 0, 1), (1, 0, -1), (1, 0, 1),
      (0, -1, -1), (0, -1, 1), (0, 1, -1), (0, 1, 1)]"

definition corner_offsets :: "(int \<times> int \<times> int) list" where
  "corner_offsets =
     [(-1, -1, -1), (-1, -1, 1), (-1, 1, -1), (-1, 1, 1),
      (1, -1, -1), (1, -1, 1), (1, 1, -1), (1, 1, 1)]"

definition shift :: "Point3D \<Rightarrow> int \<times> int \<times> int \<Rightarrow> Point3D" where
  "shift p = (\<lambda>(a, b, c). Point3D (px p + a) (py p + b) (pz p + c))"

text \<open>
  The entries of the vector that pass the self check of \<open>mergeSegments\<close>, in the store
  in which the call starts.
\<close>

definition absorbed :: "store \<Rightarrow> addr \<Rightarrow> addr list \<Rightarrow> addr list" where
  "absorbed h this ms = filter (\<lambda>it. id' (h it) \<noteq> id' (h this)) ms"

text \<open>The calls \<open>addPoint(p\<^sub>1)\<close>, \<dots>, \<open>addPoint(p\<^sub>n)\<close> in this order on one object.\<close>

definition addPoints :: "Point3D list \<Rightarrow> Interface \<Rightarrow> Interface" where
  "addPoints ps s = fold addPoint ps s"

text \<open>
  The coordinates \<open>c\<close> for which \<open>c - 1\<close> is not negative and \<open>c + 1\<close> is still a C++
  \<^verbatim>\<open>int\<close>: on them the conversion to \<^verbatim>\<open>uint32_t\<close> in \<open>addPoint\<close> does not wrap.
\<close>

definition coord_ok :: "int \<Rightarrow> bool" where
  "coord_ok c \<longleftrightarrow> 1 \<le> c \<and> c < 2 ^ 31 - 1"

text \<open>
  The box as the specification words it, for comparison with the one \<open>addPoint\<close>
  computes: the coordinate-wise minimum and maximum over the directly added points, the
  minimum lowered by 1 and the maximum raised by 1, each result then converted to
  \<^verbatim>\<open>uint32_t\<close>.
\<close>

definition claimed_bbox :: "Point3D list \<Rightarrow> bbox_array" where
  "claimed_bbox ps =
     \<lparr>b0 = static_cast_uint32 (Min (px ` set ps) - 1),
      b1 = static_cast_uint32 (Min (py ` set ps) - 1),
      b2 = static_cast_uint32 (Min (pz ` set ps) - 1),
      b3 = static_cast_uint32 (Max (px ` set ps) + 1),
      b4 = static_cast_uint32 (Max (py ` set ps) + 1),
      b5 = static_cast_uint32 (Max (pz ` set ps) + 1)\<rparr>"

text \<open>
  A concrete store and registry for the examples: segment A with id 1 at address 1, after
  \<open>addPoint (5, 5, 5)\<close>; segment B with id 2 at address 2, after \<open>addPoint (10, 10, 10)\<close>;
  at address 3 a second object that carries the id 1, after \<open>addPoint (20, 20, 20)\<close>; every
  other address holds a new segment whose id is the address. The registry maps the ids 1
  and 2 to A and B.
\<close>

definition scenario_store :: store where
  "scenario_store a =
     (if a = 1 then addPoint (Point3D 5 5 5) (Interface_new 1)
      else if a = 2 then addPoint (Point3D 10 10 10) (Interface_new 2)
      else if a = 3 then addPoint (Point3D 20 20 20) (Interface_new 1)
      else Interface_new (int a))"

definition scenario_registry :: registry where
  "scenario_registry = [1 \<mapsto> 1, 2 \<mapsto> 2]"

section \<open>Properties\<close>

subsection \<open>The bounding box\<close>

lemma mergeBbox_sel:
  "b0 (mergeBbox a b) = min (b0 a) (b0 b)"
  "b1 (mergeBbox a b) = min (b1 a) (b1 b)"
  "b2 (mergeBbox a b) = min (b2 a) (b2 b)"
  "b3 (mergeBbox a b) = max (b3 a) (b3 b)"
  "b4 (mergeBbox a b) = max (b4 a) (b4 b)"
  "b5 (mergeBbox a b) = max (b5 a) (b5 b)"
  by (simp_all add: mergeBbox_def)

lemma UINT32_MAX_top: "x \<le> UINT32_MAX"
  using uint_lt2p [of x] by (simp add: UINT32_MAX_def word_le_def)

subsection \<open>The dilation inserted by addPoint\<close>

lemma zip_offsets: "zip dx (zip dy dz) = spec_offsets"
  by (simp add: dx_def dy_def dz_def spec_offsets_def)

lemma length_offsets:
  "length dx = 19" "length dy = 19" "length dz = 19" "length spec_offsets = 19"
  by (simp_all add: dx_def dy_def dz_def spec_offsets_def)

lemma nth_offsets: "i < 19 \<Longrightarrow> spec_offsets ! i = (dx ! i, dy ! i, dz ! i)"
  by (simp only: zip_offsets [symmetric] nth_zip length_offsets length_zip min.idem)

lemma ins_shift:
  "i < 19 \<Longrightarrow> insertNeighbor p i S = insert (shift p (spec_offsets ! i)) S"
  by (simp add: nth_offsets insertNeighbor_def shift_def)

lemma fold_ins:
  "\<forall>i \<in> set is. i < 19 \<Longrightarrow>
     fold (insertNeighbor p) is S = S \<union> (\<lambda>i. shift p (spec_offsets ! i)) ` set is"
  by (induction "is" arbitrary: S) (auto simp: ins_shift)

lemma fold19: "fold (insertNeighbor p) [0..<19] S = S \<union> shift p ` set spec_offsets"
proof -
  have "set spec_offsets = (\<lambda>i. spec_offsets ! i) ` {0..<19}"
    using nth_image [of 19 spec_offsets] by (simp add: length_offsets)
  then have "shift p ` set spec_offsets = (\<lambda>i. shift p (spec_offsets ! i)) ` set [0..<19]"
    by (simp add: image_image)
  moreover have "fold (insertNeighbor p) [0..<19] S
      = S \<union> (\<lambda>i. shift p (spec_offsets ! i)) ` set [0..<19]"
    by (rule fold_ins) simp
  ultimately show ?thesis by simp
qed

text \<open>The 19 points written out.\<close>

lemma shift_offsets:
  "shift (Point3D x y z) ` set spec_offsets =
     {Point3D x y z,
      Point3D (x - 1) y z, Point3D (x + 1) y z,
      Point3D x (y - 1) z, Point3D x (y + 1) z,
      Point3D x y (z - 1), Point3D x y (z + 1),
      Point3D (x - 1) (y - 1) z, Point3D (x - 1) (y + 1) z,
      Point3D (x + 1) (y - 1) z, Point3D (x + 1) (y + 1) z,
      Point3D (x - 1) y (z - 1), Point3D (x - 1) y (z + 1),
      Point3D (x + 1) y (z - 1), Point3D (x + 1) y (z + 1),
      Point3D x (y - 1) (z - 1), Point3D x (y - 1) (z + 1),
      Point3D x (y + 1) (z - 1), Point3D x (y + 1) (z + 1)}"
  by (simp add: spec_offsets_def shift_def)

subsection \<open>The loop of mergeSegments\<close>

lemma mergeOne_frame: "a \<noteq> this \<Longrightarrow> fst (mergeOne this it (h, reg)) a = h a"
  by (simp add: mergeOne_def)

lemma mergeOne_id: "id' (fst (mergeOne this it (h, reg)) a) = id' (h a)"
  by (simp add: mergeOne_def)

lemma mergeOne_this:
  "fst (mergeOne this it (h, reg)) this =
     (if id' (h it) = id' (h this) then h this
      else (h this)\<lparr>segment := segment (h this) \<union> segment (h it),
                      bbox := mergeBbox (bbox (h it)) (bbox (h this))\<rparr>)"
  by (simp add: mergeOne_def)

lemma mergeOne_reg:
  "snd (mergeOne this it (h, reg)) =
     (if id' (h it) = id' (h this) then reg else reg(id' (h it) := None))"
  by (simp add: mergeOne_def)

lemma mergeLoop_frame: "a \<noteq> this \<Longrightarrow> fst (mergeLoop this ms (h, reg)) a = h a"
proof (induction ms arbitrary: h reg)
  case Nil
  then show ?case by simp
next
  case (Cons it its)
  obtain h1 reg1 where st: "mergeOne this it (h, reg) = (h1, reg1)"
    by (cases "mergeOne this it (h, reg)")
  have "h1 a = h a"
    using mergeOne_frame [OF Cons.prems, of it h reg] st by simp
  with Cons.IH [OF Cons.prems, of h1 reg1] st show ?case by simp
qed

lemma mergeLoop_id: "id' (fst (mergeLoop this ms (h, reg)) a) = id' (h a)"
proof (induction ms arbitrary: h reg)
  case Nil
  then show ?case by simp
next
  case (Cons it its)
  obtain h1 reg1 where st: "mergeOne this it (h, reg) = (h1, reg1)"
    by (cases "mergeOne this it (h, reg)")
  have "id' (h1 a) = id' (h a)"
    using mergeOne_id [of this it h reg a] st by simp
  with Cons.IH [of h1 reg1] st show ?case by simp
qed

lemma absorbed_mergeOne:
  "absorbed (fst (mergeOne this it (h, reg))) this ms = absorbed h this ms"
  unfolding absorbed_def
proof (rule filter_cong [OF refl])
  fix a
  show "(id' (fst (mergeOne this it (h, reg)) a) \<noteq> id' (fst (mergeOne this it (h, reg)) this)) = (id' (h a) \<noteq> id' (h this))"
    by (simp add: mergeOne_id)
qed

lemma absorbed_not_this: "a \<in> set (absorbed h this ms) \<Longrightarrow> a \<noteq> this"
  by (auto simp: absorbed_def)

lemma mergeLoop_segment:
  "segment (fst (mergeLoop this ms (h, reg)) this) =
     segment (h this) \<union> (\<Union>it \<in> set (absorbed h this ms). segment (h it))"
proof (induction ms arbitrary: h reg)
  case Nil
  then show ?case by (simp add: absorbed_def)
next
  case (Cons it its)
  obtain h1 reg1 where st: "mergeOne this it (h, reg) = (h1, reg1)"
    by (cases "mergeOne this it (h, reg)")
  have h1: "h1 = fst (mergeOne this it (h, reg))" using st by simp
  have ab: "absorbed h1 this its = absorbed h this its"
    unfolding h1 by (rule absorbed_mergeOne)
  have same: "\<And>a. a \<in> set (absorbed h this its) \<Longrightarrow> segment (h1 a) = segment (h a)"
    unfolding h1 by (simp add: mergeOne_frame absorbed_not_this)
  have this1: "segment (h1 this) = segment (h this) \<union> (\<Union>a \<in> set (absorbed h this [it]). segment (h a))"
    unfolding h1 by (simp add: mergeOne_this absorbed_def)
  have "segment (fst (mergeLoop this (it # its) (h, reg)) this) =
          segment (h1 this) \<union> (\<Union>a \<in> set (absorbed h1 this its). segment (h1 a))"
    using Cons.IH [of h1 reg1] st by simp
  also have "\<dots> = segment (h1 this) \<union> (\<Union>a \<in> set (absorbed h this its). segment (h a))"
    using same by (simp add: ab)
  also have "\<dots> = segment (h this) \<union> (\<Union>a \<in> set (absorbed h this (it # its)). segment (h a))"
    unfolding this1 by (auto simp: absorbed_def)
  finally show ?case .
qed

lemma mergeLoop_bbox:
  "bbox (fst (mergeLoop this ms (h, reg)) this) =
     fold (\<lambda>it. mergeBbox (bbox (h it))) (absorbed h this ms) (bbox (h this))"
proof (induction ms arbitrary: h reg)
  case Nil
  then show ?case by (simp add: absorbed_def)
next
  case (Cons it its)
  obtain h1 reg1 where st: "mergeOne this it (h, reg) = (h1, reg1)"
    by (cases "mergeOne this it (h, reg)")
  have h1: "h1 = fst (mergeOne this it (h, reg))" using st by simp
  have ab: "absorbed h1 this its = absorbed h this its"
    unfolding h1 by (rule absorbed_mergeOne)
  have same: "\<And>a. a \<in> set (absorbed h this its) \<Longrightarrow> bbox (h1 a) = bbox (h a)"
    unfolding h1 by (simp add: mergeOne_frame absorbed_not_this)
  have this1: "bbox (h1 this) = fold (\<lambda>it. mergeBbox (bbox (h it))) (absorbed h this [it]) (bbox (h this))"
    unfolding h1 by (simp add: mergeOne_this absorbed_def)
  have "bbox (fst (mergeLoop this (it # its) (h, reg)) this) =
          fold (\<lambda>a. mergeBbox (bbox (h1 a))) (absorbed h1 this its) (bbox (h1 this))"
    using Cons.IH [of h1 reg1] st by simp
  also have "\<dots> = fold (\<lambda>a. mergeBbox (bbox (h a))) (absorbed h this its) (bbox (h1 this))"
    unfolding ab using same by (intro fold_cong) auto
  also have "\<dots> = fold (\<lambda>a. mergeBbox (bbox (h a))) (absorbed h this (it # its)) (bbox (h this))"
    unfolding this1 by (simp add: absorbed_def)
  finally show ?case .
qed

lemma mergeLoop_registry:
  "snd (mergeLoop this ms (h, reg)) =
     (\<lambda>k. if k \<in> (\<lambda>it. id' (h it)) ` set (absorbed h this ms) then None else reg k)"
proof (induction ms arbitrary: h reg)
  case Nil
  then show ?case by (simp add: absorbed_def)
next
  case (Cons it its)
  obtain h1 reg1 where st: "mergeOne this it (h, reg) = (h1, reg1)"
    by (cases "mergeOne this it (h, reg)")
  have h1: "h1 = fst (mergeOne this it (h, reg))" using st by simp
  have r1: "reg1 = (if id' (h it) = id' (h this) then reg else reg(id' (h it) := None))"
    using st mergeOne_reg [of this it h reg] by simp
  have ab: "absorbed h1 this its = absorbed h this its"
    unfolding h1 by (rule absorbed_mergeOne)
  have ids: "\<And>a. id' (h1 a) = id' (h a)"
    unfolding h1 by (rule mergeOne_id)
  have "snd (mergeLoop this (it # its) (h, reg)) =
          (\<lambda>k. if k \<in> (\<lambda>a. id' (h1 a)) ` set (absorbed h1 this its) then None else reg1 k)"
    using Cons.IH [of h1 reg1] st by simp
  also have "\<dots> = (\<lambda>k. if k \<in> (\<lambda>a. id' (h a)) ` set (absorbed h this (it # its)) then None else reg k)"
    unfolding ab ids r1 by (auto simp: absorbed_def fun_eq_iff)
  finally show ?case .
qed

subsection \<open>What addPoint does to the members\<close>

lemma addPoint_segment: "segment (addPoint p s) = segment s \<union> shift p ` set spec_offsets"
  by (simp add: addPoint_def Let_def fold19)

lemma addPoint_id: "id' (addPoint p s) = id' s"
  by (simp add: addPoint_def Let_def)

lemma addPoint_bbox:
  "bbox (addPoint p s) =
     mergeBbox \<lparr>b0 = static_cast_uint32 (px p - 1), b1 = static_cast_uint32 (py p - 1),
                b2 = static_cast_uint32 (pz p - 1), b3 = static_cast_uint32 (px p + 1),
                b4 = static_cast_uint32 (py p + 1), b5 = static_cast_uint32 (pz p + 1)\<rparr> (bbox s)"
  by (simp add: addPoint_def Let_def)

lemma inj_shift: "inj (shift p)"
  by (auto simp: inj_on_def shift_def)

lemma corner_not_listed: "d \<in> set corner_offsets \<Longrightarrow> d \<notin> set spec_offsets"
  by (auto simp: corner_offsets_def spec_offsets_def)

lemma corner_not_dilated: "d \<in> set corner_offsets \<Longrightarrow> shift p d \<notin> shift p ` set spec_offsets"
  by (simp add: inj_image_mem_iff [OF inj_shift] corner_not_listed)

lemma distinct_spec_offsets: "distinct spec_offsets"
  by (simp add: spec_offsets_def)

subsection \<open>Skipped entries and the accumulated box\<close>

lemma mergeOne_self: "id' (h it) = id' (h this) \<Longrightarrow> mergeOne this it (h, reg) = (h, reg)"
  by (simp add: mergeOne_def)

lemma mergeLoop_absorbed:
  "mergeLoop this ms (h, reg) = mergeLoop this (absorbed h this ms) (h, reg)"
proof (induction ms arbitrary: h reg)
  case Nil
  then show ?case by (simp add: absorbed_def)
next
  case (Cons it its)
  show ?case
  proof (cases "id' (h it) = id' (h this)")
    case True
    then have "absorbed h this (it # its) = absorbed h this its"
      by (simp add: absorbed_def)
    with True Cons.IH [of h reg] show ?thesis
      by (simp add: mergeOne_self)
  next
    case False
    obtain h1 reg1 where st: "mergeOne this it (h, reg) = (h1, reg1)"
      by (cases "mergeOne this it (h, reg)")
    have ab: "absorbed h1 this its = absorbed h this its"
      using absorbed_mergeOne [of this it h reg its] st by simp
    from False have "absorbed h this (it # its) = it # absorbed h this its"
      by (simp add: absorbed_def)
    with Cons.IH [of h1 reg1] st ab show ?thesis by simp
  qed
qed

lemma mergeLoop_only_self:
  "\<forall>it \<in> set ms. id' (h it) = id' (h this) \<Longrightarrow> mergeLoop this ms (h, reg) = (h, reg)"
proof -
  assume "\<forall>it \<in> set ms. id' (h it) = id' (h this)"
  then have "absorbed h this ms = []"
    by (simp add: absorbed_def)
  with mergeLoop_absorbed [of this ms h reg] show ?thesis by simp
qed

lemma fold_mergeBbox_min:
  "b0 (fold (\<lambda>x. mergeBbox (g x)) xs b) = fold min (map (\<lambda>x. b0 (g x)) xs) (b0 b)"
  "b1 (fold (\<lambda>x. mergeBbox (g x)) xs b) = fold min (map (\<lambda>x. b1 (g x)) xs) (b1 b)"
  "b2 (fold (\<lambda>x. mergeBbox (g x)) xs b) = fold min (map (\<lambda>x. b2 (g x)) xs) (b2 b)"
  by (induction xs arbitrary: b) (simp_all add: mergeBbox_sel)

lemma fold_mergeBbox_max:
  "b3 (fold (\<lambda>x. mergeBbox (g x)) xs b) = fold max (map (\<lambda>x. b3 (g x)) xs) (b3 b)"
  "b4 (fold (\<lambda>x. mergeBbox (g x)) xs b) = fold max (map (\<lambda>x. b4 (g x)) xs) (b4 b)"
  "b5 (fold (\<lambda>x. mergeBbox (g x)) xs b) = fold max (map (\<lambda>x. b5 (g x)) xs) (b5 b)"
  by (induction xs arbitrary: b) (simp_all add: mergeBbox_sel)

lemma fold_mergeBbox_Min:
  "b0 (fold (\<lambda>x. mergeBbox (g x)) xs b) = Min (set (b0 b # map (\<lambda>x. b0 (g x)) xs))"
  "b1 (fold (\<lambda>x. mergeBbox (g x)) xs b) = Min (set (b1 b # map (\<lambda>x. b1 (g x)) xs))"
  "b2 (fold (\<lambda>x. mergeBbox (g x)) xs b) = Min (set (b2 b # map (\<lambda>x. b2 (g x)) xs))"
  by (simp_all only: fold_mergeBbox_min Min.set_eq_fold)

lemma fold_mergeBbox_Max:
  "b3 (fold (\<lambda>x. mergeBbox (g x)) xs b) = Max (set (b3 b # map (\<lambda>x. b3 (g x)) xs))"
  "b4 (fold (\<lambda>x. mergeBbox (g x)) xs b) = Max (set (b4 b # map (\<lambda>x. b4 (g x)) xs))"
  "b5 (fold (\<lambda>x. mergeBbox (g x)) xs b) = Max (set (b5 b # map (\<lambda>x. b5 (g x)) xs))"
  by (simp_all only: fold_mergeBbox_max Max.set_eq_fold)

lemma fold_mergeBbox_mono:
  "b0 (fold (\<lambda>x. mergeBbox (g x)) xs b) \<le> b0 b"
  "b1 (fold (\<lambda>x. mergeBbox (g x)) xs b) \<le> b1 b"
  "b2 (fold (\<lambda>x. mergeBbox (g x)) xs b) \<le> b2 b"
  "b3 b \<le> b3 (fold (\<lambda>x. mergeBbox (g x)) xs b)"
  "b4 b \<le> b4 (fold (\<lambda>x. mergeBbox (g x)) xs b)"
  "b5 b \<le> b5 (fold (\<lambda>x. mergeBbox (g x)) xs b)"
  unfolding fold_mergeBbox_Min fold_mergeBbox_Max by simp_all

lemma mergeSegments_this:
  "ms \<noteq> [] \<Longrightarrow> mergeSegments this ms reg h = (True, mergeLoop this ms (h, reg))"
  by (simp add: mergeSegments_def)

lemma mergeSegments_store:
  "fst (snd (mergeSegments this ms reg h)) = fst (mergeLoop this ms (h, reg))"
  by (simp add: mergeSegments_def)

lemma mergeSegments_registry:
  "snd (snd (mergeSegments this ms reg h)) = snd (mergeLoop this ms (h, reg))"
  by (simp add: mergeSegments_def)

lemma absorbed_all:
  "\<forall>it \<in> set ms. id' (h it) \<noteq> id' (h this) \<Longrightarrow> absorbed h this ms = ms"
  by (simp add: absorbed_def)

subsection \<open>The box after a sequence of addPoint calls\<close>

lemma addPoints_bbox_fold:
  "bbox (addPoints ps s) =
     fold (\<lambda>p. mergeBbox
        \<lparr>b0 = static_cast_uint32 (px p - 1), b1 = static_cast_uint32 (py p - 1),
         b2 = static_cast_uint32 (pz p - 1), b3 = static_cast_uint32 (px p + 1),
         b4 = static_cast_uint32 (py p + 1), b5 = static_cast_uint32 (pz p + 1)\<rparr>) ps (bbox s)"
  unfolding addPoints_def by (induction ps arbitrary: s) (simp_all add: addPoint_bbox)

lemma Min_insert_top:
  fixes A :: "uint32_t set"
  assumes "finite A" and "A \<noteq> {}"
  shows "Min (insert UINT32_MAX A) = Min A"
  using assms by (simp add: min_absorb2 UINT32_MAX_top)

lemma Max_insert_zero:
  fixes A :: "uint32_t set"
  assumes "finite A" and "A \<noteq> {}"
  shows "Max (insert 0 A) = Max A"
  using assms by (simp add: max_absorb2)

lemma addPoints_bbox_unsigned:
  assumes "ps \<noteq> []"
  shows "bbox (addPoints ps (Interface_new i)) =
     \<lparr>b0 = Min ((\<lambda>p. static_cast_uint32 (px p - 1)) ` set ps),
      b1 = Min ((\<lambda>p. static_cast_uint32 (py p - 1)) ` set ps),
      b2 = Min ((\<lambda>p. static_cast_uint32 (pz p - 1)) ` set ps),
      b3 = Max ((\<lambda>p. static_cast_uint32 (px p + 1)) ` set ps),
      b4 = Max ((\<lambda>p. static_cast_uint32 (py p + 1)) ` set ps),
      b5 = Max ((\<lambda>p. static_cast_uint32 (pz p + 1)) ` set ps)\<rparr>"
proof -
  let ?b = "bbox (addPoints ps (Interface_new i))"
  from assms have ne: "\<And>f :: Point3D \<Rightarrow> uint32_t. f ` set ps \<noteq> {}"
    by simp
  have fin: "\<And>f :: Point3D \<Rightarrow> uint32_t. finite (f ` set ps)"
    by simp
  have "b0 ?b = Min ((\<lambda>p. static_cast_uint32 (px p - 1)) ` set ps)"
    unfolding addPoints_bbox_fold fold_mergeBbox_Min
    by (simp add: Interface_new_def Min_insert_top [OF fin ne])
  moreover have "b1 ?b = Min ((\<lambda>p. static_cast_uint32 (py p - 1)) ` set ps)"
    unfolding addPoints_bbox_fold fold_mergeBbox_Min
    by (simp add: Interface_new_def Min_insert_top [OF fin ne])
  moreover have "b2 ?b = Min ((\<lambda>p. static_cast_uint32 (pz p - 1)) ` set ps)"
    unfolding addPoints_bbox_fold fold_mergeBbox_Min
    by (simp add: Interface_new_def Min_insert_top [OF fin ne])
  moreover have "b3 ?b = Max ((\<lambda>p. static_cast_uint32 (px p + 1)) ` set ps)"
    unfolding addPoints_bbox_fold fold_mergeBbox_Max
    by (simp add: Interface_new_def Max_insert_zero [OF fin ne])
  moreover have "b4 ?b = Max ((\<lambda>p. static_cast_uint32 (py p + 1)) ` set ps)"
    unfolding addPoints_bbox_fold fold_mergeBbox_Max
    by (simp add: Interface_new_def Max_insert_zero [OF fin ne])
  moreover have "b5 ?b = Max ((\<lambda>p. static_cast_uint32 (pz p + 1)) ` set ps)"
    unfolding addPoints_bbox_fold fold_mergeBbox_Max
    by (simp add: Interface_new_def Max_insert_zero [OF fin ne])
  ultimately show ?thesis
    by (intro bbox_array.equality) simp_all
qed

lemma uint_static_cast:
  "0 \<le> v \<Longrightarrow> v < 2 ^ 32 \<Longrightarrow> uint (static_cast_uint32 v) = v"
  by (simp add: static_cast_uint32_def uint_word_of_int)

lemma mono_uint: "mono (uint :: uint32_t \<Rightarrow> int)"
  by (simp add: mono_def word_le_def)

lemma uint_Min_static_cast:
  assumes "ps \<noteq> []" and "\<forall>p \<in> set ps. 0 \<le> f p \<and> f p < 2 ^ 32"
  shows "uint (Min ((\<lambda>p. static_cast_uint32 (f p)) ` set ps)) = Min (f ` set ps)"
proof -
  have "uint (Min ((\<lambda>p. static_cast_uint32 (f p)) ` set ps))
      = Min (uint ` (\<lambda>p. static_cast_uint32 (f p)) ` set ps)"
    using assms(1) by (intro mono_Min_commute [OF mono_uint]) simp_all
  also have "uint ` (\<lambda>p. static_cast_uint32 (f p)) ` set ps = f ` set ps"
    unfolding image_image using assms(2) by (intro image_cong refl) (simp add: uint_static_cast)
  finally show ?thesis .
qed

lemma uint_Max_static_cast:
  assumes "ps \<noteq> []" and "\<forall>p \<in> set ps. 0 \<le> f p \<and> f p < 2 ^ 32"
  shows "uint (Max ((\<lambda>p. static_cast_uint32 (f p)) ` set ps)) = Max (f ` set ps)"
proof -
  have "uint (Max ((\<lambda>p. static_cast_uint32 (f p)) ` set ps))
      = Max (uint ` (\<lambda>p. static_cast_uint32 (f p)) ` set ps)"
    using assms(1) by (intro mono_Max_commute [OF mono_uint]) simp_all
  also have "uint ` (\<lambda>p. static_cast_uint32 (f p)) ` set ps = f ` set ps"
    unfolding image_image using assms(2) by (intro image_cong refl) (simp add: uint_static_cast)
  finally show ?thesis .
qed

lemma Min_pred: "xs \<noteq> [] \<Longrightarrow> Min ((\<lambda>p. (f p :: int) - 1) ` set xs) = Min (f ` set xs) - 1"
proof -
  assume ne: "xs \<noteq> []"
  have "mono (\<lambda>c :: int. c - 1)" by (simp add: mono_def)
  from mono_Min_commute [OF this, of "f ` set xs"] ne show ?thesis
    by (simp add: image_image)
qed

lemma Max_succ: "xs \<noteq> [] \<Longrightarrow> Max ((\<lambda>p. (f p :: int) + 1) ` set xs) = Max (f ` set xs) + 1"
proof -
  assume ne: "xs \<noteq> []"
  have "mono (\<lambda>c :: int. c + 1)" by (simp add: mono_def)
  from mono_Max_commute [OF this, of "f ` set xs"] ne show ?thesis
    by (simp add: image_image)
qed

lemma uint_Min_pred:
  assumes "ps \<noteq> []" and "\<forall>p \<in> set ps. coord_ok (f p)"
  shows "uint (Min ((\<lambda>p. static_cast_uint32 (f p - 1)) ` set ps)) = Min (f ` set ps) - 1"
proof -
  from assms(2) have "\<forall>p \<in> set ps. 0 \<le> f p - 1 \<and> f p - 1 < 2 ^ 32"
    by (auto simp: coord_ok_def)
  from uint_Min_static_cast [OF assms(1) this] Min_pred [OF assms(1), of f]
  show ?thesis by simp
qed

lemma uint_Max_succ:
  assumes "ps \<noteq> []" and "\<forall>p \<in> set ps. coord_ok (f p)"
  shows "uint (Max ((\<lambda>p. static_cast_uint32 (f p + 1)) ` set ps)) = Max (f ` set ps) + 1"
proof -
  from assms(2) have "\<forall>p \<in> set ps. 0 \<le> f p + 1 \<and> f p + 1 < 2 ^ 32"
    by (auto simp: coord_ok_def)
  from uint_Max_static_cast [OF assms(1) this] Max_succ [OF assms(1), of f]
  show ?thesis by simp
qed

lemma addPoints_bbox_in_range:
  assumes "ps \<noteq> []"
    and "\<forall>p \<in> set ps. coord_ok (px p) \<and> coord_ok (py p) \<and> coord_ok (pz p)"
  shows "uint (b0 (bbox (addPoints ps (Interface_new i)))) = Min (px ` set ps) - 1"
    and "uint (b1 (bbox (addPoints ps (Interface_new i)))) = Min (py ` set ps) - 1"
    and "uint (b2 (bbox (addPoints ps (Interface_new i)))) = Min (pz ` set ps) - 1"
    and "uint (b3 (bbox (addPoints ps (Interface_new i)))) = Max (px ` set ps) + 1"
    and "uint (b4 (bbox (addPoints ps (Interface_new i)))) = Max (py ` set ps) + 1"
    and "uint (b5 (bbox (addPoints ps (Interface_new i)))) = Max (pz ` set ps) + 1"
  using assms
  by (simp_all add: addPoints_bbox_unsigned uint_Min_pred uint_Max_succ)

text \<open>
  The same box read as integers, with the conversion written out as the residue modulo
  \<open>2\<^sup>3\<^sup>2\<close>, and its agreement with the specification's wording on coordinates in range.
\<close>

lemma uint_static_cast_mod: "uint (static_cast_uint32 v) = v mod 2 ^ 32"
  by (simp add: static_cast_uint32_def uint_word_of_int)

lemma uint_Min_static_cast_mod:
  assumes "ps \<noteq> []"
  shows "uint (Min ((\<lambda>p. static_cast_uint32 (f p)) ` set ps)) = Min ((\<lambda>p. f p mod 2 ^ 32) ` set ps)"
proof -
  have "uint (Min ((\<lambda>p. static_cast_uint32 (f p)) ` set ps))
      = Min (uint ` (\<lambda>p. static_cast_uint32 (f p)) ` set ps)"
    using assms by (intro mono_Min_commute [OF mono_uint]) simp_all
  then show ?thesis
    by (simp add: image_image uint_static_cast_mod)
qed

lemma uint_Max_static_cast_mod:
  assumes "ps \<noteq> []"
  shows "uint (Max ((\<lambda>p. static_cast_uint32 (f p)) ` set ps)) = Max ((\<lambda>p. f p mod 2 ^ 32) ` set ps)"
proof -
  have "uint (Max ((\<lambda>p. static_cast_uint32 (f p)) ` set ps))
      = Max (uint ` (\<lambda>p. static_cast_uint32 (f p)) ` set ps)"
    using assms by (intro mono_Max_commute [OF mono_uint]) simp_all
  then show ?thesis
    by (simp add: image_image uint_static_cast_mod)
qed

lemma addPoints_bbox_mod:
  assumes "ps \<noteq> []"
  shows "uint (b0 (bbox (addPoints ps (Interface_new i)))) = Min ((\<lambda>p. (px p - 1) mod 2 ^ 32) ` set ps)"
    and "uint (b1 (bbox (addPoints ps (Interface_new i)))) = Min ((\<lambda>p. (py p - 1) mod 2 ^ 32) ` set ps)"
    and "uint (b2 (bbox (addPoints ps (Interface_new i)))) = Min ((\<lambda>p. (pz p - 1) mod 2 ^ 32) ` set ps)"
    and "uint (b3 (bbox (addPoints ps (Interface_new i)))) = Max ((\<lambda>p. (px p + 1) mod 2 ^ 32) ` set ps)"
    and "uint (b4 (bbox (addPoints ps (Interface_new i)))) = Max ((\<lambda>p. (py p + 1) mod 2 ^ 32) ` set ps)"
    and "uint (b5 (bbox (addPoints ps (Interface_new i)))) = Max ((\<lambda>p. (pz p + 1) mod 2 ^ 32) ` set ps)"
  using uint_Min_static_cast_mod [OF assms, of "\<lambda>p. px p - 1"]
    uint_Min_static_cast_mod [OF assms, of "\<lambda>p. py p - 1"]
    uint_Min_static_cast_mod [OF assms, of "\<lambda>p. pz p - 1"]
    uint_Max_static_cast_mod [OF assms, of "\<lambda>p. px p + 1"]
    uint_Max_static_cast_mod [OF assms, of "\<lambda>p. py p + 1"]
    uint_Max_static_cast_mod [OF assms, of "\<lambda>p. pz p + 1"]
  by (simp_all add: addPoints_bbox_unsigned [OF assms])

lemma word_eq_static_cast: "uint (w :: uint32_t) = v \<Longrightarrow> w = static_cast_uint32 v"
  by (auto simp: static_cast_uint32_def)

lemma addPoints_bbox_claimed:
  assumes "ps \<noteq> []"
    and "\<forall>p \<in> set ps. coord_ok (px p) \<and> coord_ok (py p) \<and> coord_ok (pz p)"
  shows "bbox (addPoints ps (Interface_new i)) = claimed_bbox ps"
  unfolding claimed_bbox_def
  by (intro bbox_array.equality)
    (simp_all add: word_eq_static_cast addPoints_bbox_in_range [OF assms])

text \<open>
  Where a conversion wraps, the least and the greatest are still taken among the converted
  values: after \<open>addPoint (0, 0, 0)\<close> and \<open>addPoint (5, 5, 5)\<close> the minimum corner is
  \<open>(4, 4, 4)\<close>, the value \<open>0 - 1\<close> having become \<open>2\<^sup>3\<^sup>2 - 1\<close>.
\<close>

lemma addPoints_bbox_wrapped:
  "bbox (addPoints [Point3D 0 0 0, Point3D 5 5 5] (Interface_new 1))
     = \<lparr>b0 = 4, b1 = 4, b2 = 4, b3 = 6, b4 = 6, b5 = 6\<rparr>"
  by (simp add: addPoints_def addPoint_bbox mergeBbox_def Interface_new_def
      static_cast_uint32_def UINT32_MAX_def)

subsection \<open>A directly added point and the box\<close>

text \<open>
  Right after \<open>addPoint p\<close> the point \<open>p\<close> itself passes \<open>withinBbox\<close>, provided its
  coordinates are in the range where the conversions do not wrap. The 18 neighbours
  inserted with it lie on the faces of the candidate box \<open>(x - 1, \<dots>, z + 1)\<close>.
\<close>

lemma static_cast_less:
  "0 \<le> v \<Longrightarrow> v < w \<Longrightarrow> w < 2 ^ 32 \<Longrightarrow> static_cast_uint32 v < static_cast_uint32 w"
  by (simp add: static_cast_uint32_def word_less_def uint_word_of_int)

lemma withinBbox_addPoint_self:
  assumes "coord_ok (px p)" and "coord_ok (py p)" and "coord_ok (pz p)"
  shows "withinBbox p (addPoint p s)"
proof -
  have lo: "static_cast_uint32 (c - 1) < static_cast_uint32 c"
    and hi: "static_cast_uint32 c < static_cast_uint32 (c + 1)" if "coord_ok c" for c
    using that by (simp_all add: coord_ok_def static_cast_less)
  from assms show ?thesis
    by (simp add: withinBbox_def addPoint_bbox mergeBbox_sel min_less_iff_disj
        less_max_iff_disj lo hi)
qed

subsection \<open>The example store\<close>

lemma scenario_id:
  "id' (scenario_store 1) = 1"
  "id' (scenario_store (Suc 0)) = 1"
  "id' (scenario_store 2) = 2"
  "id' (scenario_store 3) = 1"
  by (simp_all add: scenario_store_def addPoint_id Interface_new_def)

lemma scenario_segment:
  "segment (scenario_store 1) = shift (Point3D 5 5 5) ` set spec_offsets"
  "segment (scenario_store (Suc 0)) = shift (Point3D 5 5 5) ` set spec_offsets"
  "segment (scenario_store 2) = shift (Point3D 10 10 10) ` set spec_offsets"
  by (simp_all add: scenario_store_def addPoint_segment Interface_new_def)

lemma scenario_bbox:
  "bbox (scenario_store 1) = \<lparr>b0 = 4, b1 = 4, b2 = 4, b3 = 6, b4 = 6, b5 = 6\<rparr>"
  "bbox (scenario_store (Suc 0)) = \<lparr>b0 = 4, b1 = 4, b2 = 4, b3 = 6, b4 = 6, b5 = 6\<rparr>"
  "bbox (scenario_store 2) = \<lparr>b0 = 9, b1 = 9, b2 = 9, b3 = 11, b4 = 11, b5 = 11\<rparr>"
  by (simp_all add: scenario_store_def addPoint_bbox mergeBbox_def Interface_new_def
      static_cast_uint32_def UINT32_MAX_def)

section \<open>The claims\<close>

text \<open>
  Claim C1. For every segment \<open>s\<close> and every point \<open>p\<close>, the point set after
  \<open>addPoint p\<close> is the point set before united with the 19 points \<open>p + d\<close>, \<open>d\<close> ranging
  over the listed offsets (19 distinct points, the first being \<open>p\<close> itself). Afterwards
  \<open>contains\<close> holds of \<open>p\<close> and of each of its 18 listed neighbours, and for each of the
  8 corner offsets it holds exactly when the corner point was in the set before.
\<close>

theorem addPoint_dilation:
  "segment (addPoint p s) = segment s \<union> shift p ` set spec_offsets
   \<and> length spec_offsets = 19 \<and> card (shift p ` set spec_offsets) = 19
   \<and> shift p (hd spec_offsets) = p
   \<and> contains p (addPoint p s)
   \<and> (\<forall>d \<in> set (tl spec_offsets). contains (shift p d) (addPoint p s))
   \<and> (\<forall>d \<in> set corner_offsets. contains (shift p d) (addPoint p s) = contains (shift p d) s)"
proof -
  have hd: "shift p (hd spec_offsets) = p"
    by (simp add: spec_offsets_def shift_def)
  have mem: "hd spec_offsets \<in> set spec_offsets"
    by (simp add: spec_offsets_def)
  have card: "card (shift p ` set spec_offsets) = 19"
    using card_image [OF inj_on_subset [OF inj_shift subset_UNIV], of p "set spec_offsets"]
      distinct_card [OF distinct_spec_offsets]
    by (simp add: length_offsets)
  have p: "contains p (addPoint p s)"
    using mem hd unfolding contains_def addPoint_segment by (metis UnI2 imageI)
  have nb: "\<forall>d \<in> set (tl spec_offsets). contains (shift p d) (addPoint p s)"
    unfolding contains_def addPoint_segment using list.set_sel(2) [of spec_offsets]
    by (auto simp: spec_offsets_def)
  have corner: "\<forall>d \<in> set corner_offsets. contains (shift p d) (addPoint p s) = contains (shift p d) s"
    unfolding contains_def addPoint_segment using corner_not_dilated [of _ p] by auto
  from hd card p nb corner show ?thesis
    by (simp add: addPoint_segment length_offsets)
qed

theorem addPoint_dilation_witness:
  "(1, 1, 0) \<in> set (tl spec_offsets) \<and> (1, 1, 1) \<in> set corner_offsets
   \<and> contains (Point3D 5 5 5) (addPoint (Point3D 5 5 5) (Interface_new 1))
   \<and> contains (Point3D 6 6 5) (addPoint (Point3D 5 5 5) (Interface_new 1))
   \<and> \<not> contains (Point3D 6 6 6) (addPoint (Point3D 5 5 5) (Interface_new 1))"
proof -
  have a: "(1, 1, 0) \<in> set (tl spec_offsets)" by (simp add: spec_offsets_def)
  have b: "(1, 1, 1) \<in> set corner_offsets" by (simp add: corner_offsets_def)
  have c: "\<not> contains (Point3D 6 6 6) (Interface_new 1)"
    by (simp add: contains_def Interface_new_def)
  have s1: "shift (Point3D 5 5 5) (1, 1, 0) = Point3D 6 6 5" by (simp add: shift_def)
  have s2: "shift (Point3D 5 5 5) (1, 1, 1) = Point3D 6 6 6" by (simp add: shift_def)
  from addPoint_dilation [of "Point3D 5 5 5" "Interface_new 1"] a b c s1 s2
  show ?thesis by (metis (no_types))
qed

text \<open>
  Claim C2, amended to non-empty vectors. For every receiver, every non-empty vector of
  segments whose ids all differ from the receiver's id, and every registry:
  \<open>mergeSegments\<close> returns true; the receiver's points are its points before united
  with the points of all listed segments; each minimum component of its box is the least,
  and each maximum component the greatest, of its own value before and the values of all
  listed boxes (the result of folding \<open>mergeBbox\<close> over the vector); the registry has no
  entry for the id of any listed segment and is unchanged at every other id, in particular
  at the receiver's id; the receiver keeps its id.
\<close>

theorem mergeSegments_absorbs:
  assumes "ms \<noteq> []" and "\<forall>it \<in> set ms. id' (h it) \<noteq> id' (h this)"
  shows "case mergeSegments this ms reg h of (r, h', reg') \<Rightarrow>
     r = True
     \<and> segment (h' this) = segment (h this) \<union> (\<Union>it \<in> set ms. segment (h it))
     \<and> b0 (bbox (h' this)) = Min (set (b0 (bbox (h this)) # map (\<lambda>it. b0 (bbox (h it))) ms))
     \<and> b1 (bbox (h' this)) = Min (set (b1 (bbox (h this)) # map (\<lambda>it. b1 (bbox (h it))) ms))
     \<and> b2 (bbox (h' this)) = Min (set (b2 (bbox (h this)) # map (\<lambda>it. b2 (bbox (h it))) ms))
     \<and> b3 (bbox (h' this)) = Max (set (b3 (bbox (h this)) # map (\<lambda>it. b3 (bbox (h it))) ms))
     \<and> b4 (bbox (h' this)) = Max (set (b4 (bbox (h this)) # map (\<lambda>it. b4 (bbox (h it))) ms))
     \<and> b5 (bbox (h' this)) = Max (set (b5 (bbox (h this)) # map (\<lambda>it. b5 (bbox (h it))) ms))
     \<and> bbox (h' this) = fold (\<lambda>it. mergeBbox (bbox (h it))) ms (bbox (h this))
     \<and> (\<forall>it \<in> set ms. reg' (id' (h it)) = None)
     \<and> (\<forall>k. k \<notin> (\<lambda>it. id' (h it)) ` set ms \<longrightarrow> reg' k = reg k)
     \<and> reg' (id' (h this)) = reg (id' (h this))
     \<and> id' (h' this) = id' (h this)"
proof -
  obtain r h' reg' where res: "mergeSegments this ms reg h = (r, h', reg')"
    by (cases "mergeSegments this ms reg h")
  have r: "r = True"
    using res assms(1) by (simp add: mergeSegments_def)
  have h': "h' = fst (mergeLoop this ms (h, reg))"
    using mergeSegments_store [of this ms reg h] res by simp
  have reg': "reg' = snd (mergeLoop this ms (h, reg))"
    using mergeSegments_registry [of this ms reg h] res by simp
  note ab = absorbed_all [OF assms(2)]
  have seg: "segment (h' this) = segment (h this) \<union> (\<Union>it \<in> set ms. segment (h it))"
    unfolding h' mergeLoop_segment ab ..
  have box: "bbox (h' this) = fold (\<lambda>it. mergeBbox (bbox (h it))) ms (bbox (h this))"
    unfolding h' mergeLoop_bbox ab ..
  have mins: "b0 (bbox (h' this)) = Min (set (b0 (bbox (h this)) # map (\<lambda>it. b0 (bbox (h it))) ms))"
    "b1 (bbox (h' this)) = Min (set (b1 (bbox (h this)) # map (\<lambda>it. b1 (bbox (h it))) ms))"
    "b2 (bbox (h' this)) = Min (set (b2 (bbox (h this)) # map (\<lambda>it. b2 (bbox (h it))) ms))"
    unfolding box by (rule fold_mergeBbox_Min)+
  have maxs: "b3 (bbox (h' this)) = Max (set (b3 (bbox (h this)) # map (\<lambda>it. b3 (bbox (h it))) ms))"
    "b4 (bbox (h' this)) = Max (set (b4 (bbox (h this)) # map (\<lambda>it. b4 (bbox (h it))) ms))"
    "b5 (bbox (h' this)) = Max (set (b5 (bbox (h this)) # map (\<lambda>it. b5 (bbox (h it))) ms))"
    unfolding box by (rule fold_mergeBbox_Max)+
  have regs: "reg' = (\<lambda>k. if k \<in> (\<lambda>it. id' (h it)) ` set ms then None else reg k)"
    unfolding reg' mergeLoop_registry ab ..
  have gone: "\<forall>it \<in> set ms. reg' (id' (h it)) = None"
    unfolding regs by simp
  have kept: "\<forall>k. k \<notin> (\<lambda>it. id' (h it)) ` set ms \<longrightarrow> reg' k = reg k"
    unfolding regs by simp
  have "id' (h this) \<notin> (\<lambda>it. id' (h it)) ` set ms"
  proof
    assume "id' (h this) \<in> (\<lambda>it. id' (h it)) ` set ms"
    then obtain it where it: "it \<in> set ms" and eq: "id' (h this) = id' (h it)"
      by (rule imageE)
    from assms(2) it have "id' (h it) \<noteq> id' (h this)"
      by (rule bspec)
    with eq show False by simp
  qed
  with kept have own: "reg' (id' (h this)) = reg (id' (h this))"
    by blast
  have ident: "id' (h' this) = id' (h this)"
    unfolding h' by (rule mergeLoop_id)
  from r seg mins maxs box gone kept own ident show ?thesis
    unfolding res by simp
qed

theorem mergeSegments_absorbs_witness:
  "[2] \<noteq> ([] :: addr list) \<and> id' (scenario_store 2) \<noteq> id' (scenario_store 1)
   \<and> (case mergeSegments 1 [2] scenario_registry scenario_store of (r, h', reg') \<Rightarrow>
        r \<and> contains (Point3D 5 5 5) (h' 1) \<and> contains (Point3D 10 10 10) (h' 1)
        \<and> bbox (h' 1) = \<lparr>b0 = 4, b1 = 4, b2 = 4, b3 = 11, b4 = 11, b5 = 11\<rparr>
        \<and> reg' 2 = None \<and> reg' 1 = Some 1)"
proof -
  have ne: "[2] \<noteq> ([] :: addr list)" by simp
  have ids: "\<forall>it \<in> set [2]. id' (scenario_store it) \<noteq> id' (scenario_store 1)"
    by (simp add: scenario_id)
  have p1: "Point3D 5 5 5 \<in> segment (scenario_store 1)"
    by (simp add: scenario_segment spec_offsets_def shift_def)
  have p2: "Point3D 10 10 10 \<in> segment (scenario_store 2)"
    by (simp add: scenario_segment spec_offsets_def shift_def)
  have r1: "scenario_registry 1 = Some 1"
    by (simp add: scenario_registry_def)
  from mergeSegments_absorbs [OF ne ids, of scenario_registry] p1 p2 r1 ids
  show ?thesis
    by (simp add: contains_def scenario_bbox scenario_id mergeBbox_def split: prod.splits)
qed

text \<open>
  Claim C2 as stated covers the empty vector, whose ids are vacuously all different from
  the receiver's; on it the call returns false.
\<close>

theorem mergeSegments_absorbs_empty_counterexample:
  "\<not> fst (mergeSegments 1 [] scenario_registry scenario_store)"
  by (simp add: mergeSegments_def)

text \<open>
  Claim C3, evaluated where it fails. On a new segment with id 1, \<open>addPoint (5, 5, 5)\<close>
  gives the box \<open>(4, 4, 4, 6, 6, 6)\<close>, which is not the sentinel; the neighbour
  \<open>(4, 5, 5)\<close> is a point of the segment, and \<open>withinBbox (4, 5, 5)\<close> is false, since its
  first coordinate is not strictly greater than the minimum 4.
\<close>

theorem withinBbox_rejects_dilated_neighbour:
  "bbox (addPoint (Point3D 5 5 5) (Interface_new 1))
     = \<lparr>b0 = 4, b1 = 4, b2 = 4, b3 = 6, b4 = 6, b5 = 6\<rparr>
   \<and> contains (Point3D 4 5 5) (addPoint (Point3D 5 5 5) (Interface_new 1))
   \<and> \<not> withinBbox (Point3D 4 5 5) (addPoint (Point3D 5 5 5) (Interface_new 1))"
proof -
  have box: "bbox (addPoint (Point3D 5 5 5) (Interface_new 1))
     = \<lparr>b0 = 4, b1 = 4, b2 = 4, b3 = 6, b4 = 6, b5 = 6\<rparr>"
    by (simp add: addPoint_bbox mergeBbox_def Interface_new_def
        static_cast_uint32_def UINT32_MAX_def)
  have mem: "contains (Point3D 4 5 5) (addPoint (Point3D 5 5 5) (Interface_new 1))"
    by (simp add: contains_def addPoint_segment spec_offsets_def shift_def)
  have out: "\<not> withinBbox (Point3D 4 5 5) (addPoint (Point3D 5 5 5) (Interface_new 1))"
    by (simp add: withinBbox_def box static_cast_uint32_def)
  from box mem out show ?thesis by simp
qed

text \<open>
  Claim C4, amended to the order in which the code converts and compares. After the calls
  \<open>addPoint p\<^sub>1\<close>, \<dots>, \<open>addPoint p\<^sub>n\<close> (\<open>n \<ge> 1\<close>) on a new segment, each minimum component
  of the box, read as an unsigned integer, is the least of the residues \<open>(c - 1) mod 2\<^sup>3\<^sup>2\<close>,
  and each maximum component the greatest of the residues \<open>(c + 1) mod 2\<^sup>3\<^sup>2\<close>, over the
  corresponding coordinates \<open>c\<close> of \<open>p\<^sub>1\<close>, \<dots>, \<open>p\<^sub>n\<close>: every \<open>c - 1\<close> and \<open>c + 1\<close> is converted
  first, and the least and greatest are taken among the converted values. When every
  coordinate is at least 1 and less than \<open>2\<^sup>3\<^sup>1 - 1\<close>, the box is the one the specification
  words: the least coordinate minus 1 and the greatest coordinate plus 1. The witness
  applies the theorem to the example \<open>(5, 5, 5)\<close> of the claim, with the box
  \<open>(4, 4, 4, 6, 6, 6)\<close>, to \<open>(0, 0, 0)\<close> followed by \<open>(5, 5, 5)\<close>, where one conversion wraps, and
  to \<open>(0, 0, 0)\<close> alone, where the minimum is the wrapped value \<open>2\<^sup>3\<^sup>2 - 1\<close>.
\<close>

theorem addPoints_bbox:
  assumes "ps \<noteq> []"
  shows "uint (b0 (bbox (addPoints ps (Interface_new i)))) = Min ((\<lambda>p. (px p - 1) mod 2 ^ 32) ` set ps)
   \<and> uint (b1 (bbox (addPoints ps (Interface_new i)))) = Min ((\<lambda>p. (py p - 1) mod 2 ^ 32) ` set ps)
   \<and> uint (b2 (bbox (addPoints ps (Interface_new i)))) = Min ((\<lambda>p. (pz p - 1) mod 2 ^ 32) ` set ps)
   \<and> uint (b3 (bbox (addPoints ps (Interface_new i)))) = Max ((\<lambda>p. (px p + 1) mod 2 ^ 32) ` set ps)
   \<and> uint (b4 (bbox (addPoints ps (Interface_new i)))) = Max ((\<lambda>p. (py p + 1) mod 2 ^ 32) ` set ps)
   \<and> uint (b5 (bbox (addPoints ps (Interface_new i)))) = Max ((\<lambda>p. (pz p + 1) mod 2 ^ 32) ` set ps)
   \<and> ((\<forall>p \<in> set ps. coord_ok (px p) \<and> coord_ok (py p) \<and> coord_ok (pz p)) \<longrightarrow>
        bbox (addPoints ps (Interface_new i)) = claimed_bbox ps
      \<and> uint (b0 (bbox (addPoints ps (Interface_new i)))) = Min (px ` set ps) - 1
      \<and> uint (b1 (bbox (addPoints ps (Interface_new i)))) = Min (py ` set ps) - 1
      \<and> uint (b2 (bbox (addPoints ps (Interface_new i)))) = Min (pz ` set ps) - 1
      \<and> uint (b3 (bbox (addPoints ps (Interface_new i)))) = Max (px ` set ps) + 1
      \<and> uint (b4 (bbox (addPoints ps (Interface_new i)))) = Max (py ` set ps) + 1
      \<and> uint (b5 (bbox (addPoints ps (Interface_new i)))) = Max (pz ` set ps) + 1)"
  using addPoints_bbox_mod [OF assms, of i] addPoints_bbox_in_range [OF assms, of i]
    addPoints_bbox_claimed [OF assms, of i]
  by blast

theorem addPoints_bbox_witness:
  "[Point3D 5 5 5] \<noteq> [] \<and> coord_ok 5
   \<and> addPoints [Point3D 5 5 5] (Interface_new 1) = addPoint (Point3D 5 5 5) (Interface_new 1)
   \<and> bbox (addPoint (Point3D 5 5 5) (Interface_new 1))
       = \<lparr>b0 = 4, b1 = 4, b2 = 4, b3 = 6, b4 = 6, b5 = 6\<rparr>
   \<and> [Point3D 0 0 0, Point3D 5 5 5] \<noteq> []
   \<and> uint (b0 (bbox (addPoints [Point3D 0 0 0, Point3D 5 5 5] (Interface_new 1)))) = 4
   \<and> uint (b3 (bbox (addPoints [Point3D 0 0 0, Point3D 5 5 5] (Interface_new 1)))) = 6
   \<and> [Point3D 0 0 0] \<noteq> []
   \<and> uint (b0 (bbox (addPoints [Point3D 0 0 0] (Interface_new 1)))) = 2 ^ 32 - 1
   \<and> uint (b3 (bbox (addPoints [Point3D 0 0 0] (Interface_new 1)))) = 1"
proof -
  have ne: "[Point3D 5 5 5] \<noteq> []" "[Point3D 0 0 0, Point3D 5 5 5] \<noteq> []" "[Point3D 0 0 0] \<noteq> []"
    by simp_all
  have ok: "coord_ok 5" by (simp add: coord_ok_def)
  have one: "addPoints [Point3D 5 5 5] (Interface_new 1)
      = addPoint (Point3D 5 5 5) (Interface_new 1)"
    by (simp add: addPoints_def)
  have box: "bbox (addPoint (Point3D 5 5 5) (Interface_new 1))
       = \<lparr>b0 = 4, b1 = 4, b2 = 4, b3 = 6, b4 = 6, b5 = 6\<rparr>"
    using addPoints_bbox [OF ne(1), of 1] ok one
    by (simp add: claimed_bbox_def static_cast_uint32_def)
  have wrap: "uint (b0 (bbox (addPoints [Point3D 0 0 0, Point3D 5 5 5] (Interface_new 1)))) = 4"
    "uint (b3 (bbox (addPoints [Point3D 0 0 0, Point3D 5 5 5] (Interface_new 1)))) = 6"
    using addPoints_bbox [OF ne(2), of 1] by simp_all
  have zero: "uint (b0 (bbox (addPoints [Point3D 0 0 0] (Interface_new 1)))) = 2 ^ 32 - 1"
    "uint (b3 (bbox (addPoints [Point3D 0 0 0] (Interface_new 1)))) = 1"
    using addPoints_bbox [OF ne(3), of 1] by simp_all
  from ne ok one box wrap zero show ?thesis by simp
qed

text \<open>
  Claim C4 as stated takes the minimum of the signed coordinates, subtracts 1 and converts
  the result. After \<open>addPoint (0, 0, 0)\<close> and \<open>addPoint (5, 5, 5)\<close> on a new segment that gives
  the minimum corner \<open>2\<^sup>3\<^sup>2 - 1\<close> in every component, while the box \<open>addPoint\<close> computes has
  the minimum corner \<open>(4, 4, 4)\<close>.
\<close>

theorem addPoints_bbox_claimed_counterexample:
  "bbox (addPoints [Point3D 0 0 0, Point3D 5 5 5] (Interface_new 1))
     = \<lparr>b0 = 4, b1 = 4, b2 = 4, b3 = 6, b4 = 6, b5 = 6\<rparr>
   \<and> claimed_bbox [Point3D 0 0 0, Point3D 5 5 5]
     = \<lparr>b0 = 4294967295, b1 = 4294967295, b2 = 4294967295, b3 = 6, b4 = 6, b5 = 6\<rparr>
   \<and> bbox (addPoints [Point3D 0 0 0, Point3D 5 5 5] (Interface_new 1))
     \<noteq> claimed_bbox [Point3D 0 0 0, Point3D 5 5 5]"
proof -
  have code: "bbox (addPoints [Point3D 0 0 0, Point3D 5 5 5] (Interface_new 1))
     = \<lparr>b0 = 4, b1 = 4, b2 = 4, b3 = 6, b4 = 6, b5 = 6\<rparr>"
    by (rule addPoints_bbox_wrapped)
  have claim: "claimed_bbox [Point3D 0 0 0, Point3D 5 5 5]
     = \<lparr>b0 = 4294967295, b1 = 4294967295, b2 = 4294967295, b3 = 6, b4 = 6, b5 = 6\<rparr>"
    by (simp add: claimed_bbox_def static_cast_uint32_def)
  from code claim show ?thesis by simp
qed

text \<open>
  Claim C5. \<open>mergeBbox\<close> takes the smaller value in each of the three minimum
  components and the larger in each of the three maximum components; it is commutative
  and associative, and the box of a newly constructed segment (minima at the largest
  unsigned value, maxima at zero) is a neutral element on both sides.
\<close>

theorem mergeBbox_min_max_monoid:
  "mergeBbox a b =
     \<lparr>b0 = min (b0 a) (b0 b), b1 = min (b1 a) (b1 b), b2 = min (b2 a) (b2 b),
      b3 = max (b3 a) (b3 b), b4 = max (b4 a) (b4 b), b5 = max (b5 a) (b5 b)\<rparr>
   \<and> mergeBbox a b = mergeBbox b a
   \<and> mergeBbox a (mergeBbox b c) = mergeBbox (mergeBbox a b) c
   \<and> mergeBbox (bbox (Interface_new i)) a = a
   \<and> mergeBbox a (bbox (Interface_new i)) = a"
proof -
  have comm: "mergeBbox a b = mergeBbox b a"
    by (simp add: mergeBbox_def min.commute max.commute)
  have assoc: "mergeBbox a (mergeBbox b c) = mergeBbox (mergeBbox a b) c"
    by (simp add: mergeBbox_def min.assoc max.assoc)
  have left: "mergeBbox (bbox (Interface_new i)) a = a"
    by (simp add: mergeBbox_def Interface_new_def min_absorb2 UINT32_MAX_top)
  have right: "mergeBbox a (bbox (Interface_new i)) = a"
    by (simp add: mergeBbox_def Interface_new_def min_absorb1 UINT32_MAX_top)
  from comm assoc left right show ?thesis
    by (simp add: mergeBbox_def)
qed

text \<open>
  Claim C6. \<open>mergeSegments\<close> with an empty vector returns false and leaves the store
  (hence the points and the box of the receiver) and the registry as they were.
\<close>

theorem mergeSegments_empty:
  "mergeSegments this [] reg h = (False, h, reg)"
  by (simp add: mergeSegments_def)

text \<open>
  Claim C7. An entry whose id equals the receiver's id leaves store and registry as they
  are; the store and registry after \<open>mergeSegments\<close> are those after the call on the
  vector without such entries; \<open>mergeSegments [this]\<close> returns true with store and
  registry unchanged, and so does every non-empty vector all of whose entries have the
  receiver's id.
\<close>

theorem mergeSegments_self_skipped:
  "(id' (h it) = id' (h this) \<longrightarrow> mergeOne this it (h, reg) = (h, reg))
   \<and> snd (mergeSegments this ms reg h) =
       snd (mergeSegments this (filter (\<lambda>it. id' (h it) \<noteq> id' (h this)) ms) reg h)
   \<and> mergeSegments this [this] reg h = (True, h, reg)
   \<and> (ms \<noteq> [] \<and> (\<forall>it \<in> set ms. id' (h it) = id' (h this)) \<longrightarrow>
        mergeSegments this ms reg h = (True, h, reg))"
proof -
  have one: "id' (h it) = id' (h this) \<longrightarrow> mergeOne this it (h, reg) = (h, reg)"
    by (simp add: mergeOne_self)
  have skip: "snd (mergeSegments this ms reg h) =
      snd (mergeSegments this (filter (\<lambda>it. id' (h it) \<noteq> id' (h this)) ms) reg h)"
    using mergeLoop_absorbed [of this ms h reg]
    by (simp add: mergeSegments_def absorbed_def)
  have self: "mergeSegments this [this] reg h = (True, h, reg)"
    by (simp add: mergeSegments_def mergeOne_self)
  have only: "ms \<noteq> [] \<and> (\<forall>it \<in> set ms. id' (h it) = id' (h this)) \<longrightarrow>
        mergeSegments this ms reg h = (True, h, reg)"
    by (simp add: mergeSegments_def mergeLoop_only_self)
  from one skip self only show ?thesis by blast
qed

theorem mergeSegments_self_skipped_witness:
  "id' (scenario_store 3) = id' (scenario_store 1) \<and> [1, 3] \<noteq> ([] :: addr list)
   \<and> mergeOne 1 3 (scenario_store, scenario_registry) = (scenario_store, scenario_registry)
   \<and> mergeSegments 1 [1, 3] scenario_registry scenario_store
       = (True, scenario_store, scenario_registry)"
  using mergeSegments_self_skipped
      [where this = 1 and it = 3 and ms = "[1, 3]" and reg = scenario_registry
         and h = scenario_store]
  by (simp add: scenario_id)

text \<open>
  Claim C8. A newly constructed segment has the sentinel box (minima \<open>2\<^sup>3\<^sup>2 - 1\<close>, maxima
  0) and no points, and \<open>withinBbox\<close> is false on it for every point.
\<close>

theorem withinBbox_sentinel:
  "bbox (Interface_new i) = \<lparr>b0 = UINT32_MAX, b1 = UINT32_MAX, b2 = UINT32_MAX, b3 = 0, b4 = 0, b5 = 0\<rparr>
   \<and> UINT32_MAX = word_of_int (2 ^ 32 - 1)
   \<and> segment (Interface_new i) = {}
   \<and> withinBbox p (Interface_new i) = False"
  by (simp add: withinBbox_def Interface_new_def not_less UINT32_MAX_top UINT32_MAX_def)

text \<open>
  Claim C9. \<open>addPoint\<close> and \<open>mergeSegments\<close> only grow the receiver: the points before
  are among the points after, no minimum component of the box increases, no maximum
  component decreases (components compared as unsigned 32-bit values), and the id is the
  same. \<open>mergeSegments\<close> changes the id of no object of the store.
\<close>

theorem monotone_growth:
  "segment s \<subseteq> segment (addPoint p s)
   \<and> b0 (bbox (addPoint p s)) \<le> b0 (bbox s)
   \<and> b1 (bbox (addPoint p s)) \<le> b1 (bbox s)
   \<and> b2 (bbox (addPoint p s)) \<le> b2 (bbox s)
   \<and> b3 (bbox s) \<le> b3 (bbox (addPoint p s))
   \<and> b4 (bbox s) \<le> b4 (bbox (addPoint p s))
   \<and> b5 (bbox s) \<le> b5 (bbox (addPoint p s))
   \<and> id' (addPoint p s) = id' s
   \<and> (case mergeSegments this ms reg h of (r, h', reg') \<Rightarrow>
        segment (h this) \<subseteq> segment (h' this)
        \<and> b0 (bbox (h' this)) \<le> b0 (bbox (h this))
        \<and> b1 (bbox (h' this)) \<le> b1 (bbox (h this))
        \<and> b2 (bbox (h' this)) \<le> b2 (bbox (h this))
        \<and> b3 (bbox (h this)) \<le> b3 (bbox (h' this))
        \<and> b4 (bbox (h this)) \<le> b4 (bbox (h' this))
        \<and> b5 (bbox (h this)) \<le> b5 (bbox (h' this))
        \<and> id' (h' a) = id' (h a))"
proof -
  have add: "segment s \<subseteq> segment (addPoint p s)"
    "b0 (bbox (addPoint p s)) \<le> b0 (bbox s)"
    "b1 (bbox (addPoint p s)) \<le> b1 (bbox s)"
    "b2 (bbox (addPoint p s)) \<le> b2 (bbox s)"
    "b3 (bbox s) \<le> b3 (bbox (addPoint p s))"
    "b4 (bbox s) \<le> b4 (bbox (addPoint p s))"
    "b5 (bbox s) \<le> b5 (bbox (addPoint p s))"
    "id' (addPoint p s) = id' s"
    by (simp_all add: addPoint_segment addPoint_bbox addPoint_id mergeBbox_sel)
  obtain r h' reg' where res: "mergeSegments this ms reg h = (r, h', reg')"
    by (cases "mergeSegments this ms reg h")
  have h': "h' = fst (mergeLoop this ms (h, reg))"
    using mergeSegments_store [of this ms reg h] res by simp
  have merge: "segment (h this) \<subseteq> segment (h' this)"
    "b0 (bbox (h' this)) \<le> b0 (bbox (h this))"
    "b1 (bbox (h' this)) \<le> b1 (bbox (h this))"
    "b2 (bbox (h' this)) \<le> b2 (bbox (h this))"
    "b3 (bbox (h this)) \<le> b3 (bbox (h' this))"
    "b4 (bbox (h this)) \<le> b4 (bbox (h' this))"
    "b5 (bbox (h this)) \<le> b5 (bbox (h' this))"
    "id' (h' a) = id' (h a)"
    unfolding h' by (simp_all add: mergeLoop_segment mergeLoop_bbox mergeLoop_id fold_mergeBbox_mono)
  from add merge show ?thesis
    unfolding res by simp
qed

text \<open>
  Claim C10, amended to the entries other than the receiver. For every call of
  \<open>mergeSegments\<close> and every entry of the vector that is not the receiver itself, the
  object is the same after the call: same points, same box, same id. An absorbed entry
  (one whose id differs from the receiver's) is never the receiver, and the registry has
  no entry for its id afterwards.
\<close>

theorem mergeSegments_sources_unchanged:
  "case mergeSegments this ms reg h of (r, h', reg') \<Rightarrow>
     (\<forall>it \<in> set ms. it \<noteq> this \<longrightarrow>
        segment (h' it) = segment (h it) \<and> bbox (h' it) = bbox (h it) \<and> h' it = h it)
     \<and> (\<forall>it \<in> set ms. id' (h it) \<noteq> id' (h this) \<longrightarrow>
          it \<noteq> this \<and> reg' (id' (h it)) = None)"
proof -
  obtain r h' reg' where res: "mergeSegments this ms reg h = (r, h', reg')"
    by (cases "mergeSegments this ms reg h")
  have h': "h' = fst (mergeLoop this ms (h, reg))"
    using mergeSegments_store [of this ms reg h] res by simp
  have reg': "reg' = snd (mergeLoop this ms (h, reg))"
    using mergeSegments_registry [of this ms reg h] res by simp
  have frame: "\<forall>it \<in> set ms. it \<noteq> this \<longrightarrow>
        segment (h' it) = segment (h it) \<and> bbox (h' it) = bbox (h it) \<and> h' it = h it"
    unfolding h' by (simp add: mergeLoop_frame)
  have gone: "\<forall>it \<in> set ms. id' (h it) \<noteq> id' (h this) \<longrightarrow>
          it \<noteq> this \<and> reg' (id' (h it)) = None"
    unfolding reg' mergeLoop_registry by (auto simp: absorbed_def)
  from frame gone show ?thesis
    unfolding res by simp
qed

theorem mergeSegments_sources_unchanged_witness:
  "2 \<in> set [1, 2 :: addr] \<and> (2 :: addr) \<noteq> 1
   \<and> id' (scenario_store 2) \<noteq> id' (scenario_store 1)
   \<and> (case mergeSegments 1 [1, 2] scenario_registry scenario_store of (r, h', reg') \<Rightarrow>
        h' 2 = scenario_store 2 \<and> reg' 2 = None)"
proof -
  have a: "2 \<in> set [1, 2 :: addr]" "(2 :: addr) \<noteq> 1" by simp_all
  have b: "id' (scenario_store 2) \<noteq> id' (scenario_store 1)"
    by (simp add: scenario_id)
  from mergeSegments_sources_unchanged
      [where this = 1 and ms = "[1, 2]" and reg = scenario_registry and h = scenario_store] a b
  show ?thesis
    by (auto simp: scenario_id split: prod.splits)
qed

text \<open>
  Claim C10 as stated covers every entry of the vector, and the receiver may be one of
  them: with the vector \<open>[A, B]\<close> passed to A, the entry A is skipped as a source but grows
  as the receiver, here by the point \<open>(10, 10, 10)\<close> of B.
\<close>

theorem mergeSegments_sources_unchanged_self_counterexample:
  "1 \<in> set [1, 2 :: addr]
   \<and> \<not> contains (Point3D 10 10 10) (scenario_store 1)
   \<and> contains (Point3D 10 10 10)
        (fst (snd (mergeSegments 1 [1, 2] scenario_registry scenario_store)) 1)"
proof -
  have "\<not> contains (Point3D 10 10 10) (scenario_store 1)"
    by (simp add: contains_def scenario_segment spec_offsets_def shift_def)
  moreover have "Point3D 10 10 10 \<in> segment (scenario_store 2)"
    by (simp add: scenario_segment spec_offsets_def shift_def)
  then have "contains (Point3D 10 10 10)
        (fst (snd (mergeSegments 1 [1, 2] scenario_registry scenario_store)) 1)"
    by (simp add: contains_def mergeSegments_def mergeOne_def scenario_id)
  ultimately show ?thesis by simp
qed

end
